theory Spec2Isabelle
  imports Main "HOL-Library.AList"
begin

section \<open>Text primitives\<close>

text \<open>
  Messages are Python \<open>str\<close> values.  They are modelled as lists of 8-bit characters
  read as ASCII text: \<open>str.lower\<close> maps \<open>A\<close>..\<open>Z\<close> to \<open>a\<close>..\<open>z\<close> and leaves every
  other character alone, \<open>\d\<close> is \<open>0\<close>..\<open>9\<close>, and \<open>\s\<close> is the ASCII white space
  that Python's \<open>re\<close> accepts for \<open>str\<close> patterns.
\<close>

definition ascii_uppercase :: string where
  "ascii_uppercase = ''ABCDEFGHIJKLMNOPQRSTUVWXYZ''"

definition ascii_lowercase :: string where
  "ascii_lowercase = ''abcdefghijklmnopqrstuvwxyz''"

definition digits :: string where
  "digits = ''0123456789''"

definition whitespace :: string where
  "whitespace = [CHR '' '', CHR 0x09, CHR 0x0A, CHR 0x0B, CHR 0x0C, CHR 0x0D,
                 CHR 0x1C, CHR 0x1D, CHR 0x1E, CHR 0x1F]"

definition lower_char :: "char \<Rightarrow> char" where
  "lower_char c = (case map_of (zip ascii_uppercase ascii_lowercase) c of
                     Some d \<Rightarrow> d | None \<Rightarrow> c)"

text \<open>\<open>message.lower()\<close>\<close>

definition lower :: "string \<Rightarrow> string" where
  "lower s = map lower_char s"

text \<open>\<open>s.startswith(w)\<close>, and the substring test \<open>w in s\<close>.\<close>

fun startswith :: "string \<Rightarrow> string \<Rightarrow> bool" where
  "startswith s [] = True"
| "startswith [] (c # w) = False"
| "startswith (d # s) (c # w) = (d = c \<and> startswith s w)"

fun py_in :: "string \<Rightarrow> string \<Rightarrow> bool" where
  "py_in w [] = (w = [])"
| "py_in w (c # s) = (startswith (c # s) w \<or> py_in w s)"

text \<open>
  Exceptions.  \<open>AgentError m\<close> stands for any \<open>Exception\<close> that a domain agent raises,
  \<open>m\<close> being its \<open>str()\<close>; exceptions outside \<open>Exception\<close> (cancellation, interrupts)
  are not modelled.
\<close>

datatype error =
    KeyError string
  | ValueError string
  | AttributeError string
  | TypeError string
  | AgentError string

fun error_str :: "error \<Rightarrow> string" where
  "error_str (KeyError k) = [CHR 0x27] @ k @ [CHR 0x27]"
| "error_str (ValueError m) = m"
| "error_str (AttributeError m) = m"
| "error_str (TypeError m) = m"
| "error_str (AgentError m) = m"

text \<open>
  \<open>str(n)\<close> on a natural number, and \<open>int(s)\<close> on a non-empty string of decimal
  digits: its value, unless the string has more digits than the interpreter's limit
  \<open>sys.get_int_max_str_digits()\<close> (4300 unless reconfigured), when \<open>int\<close> raises
  \<open>ValueError\<close>.
\<close>

definition digit_value :: "char \<Rightarrow> nat" where
  "digit_value c = (case map_of (zip digits [0 ..< 10]) c of Some d \<Rightarrow> d | None \<Rightarrow> 0)"

definition int_of_digits :: "string \<Rightarrow> nat" where
  "int_of_digits s = foldl (\<lambda>n c. 10 * n + digit_value c) 0 s"

function str_nat :: "nat \<Rightarrow> string" where
  "str_nat n = (if n < 10 then [digits ! n] else str_nat (n div 10) @ [digits ! (n mod 10)])"
  by pat_completeness auto
termination
  by (relation "measure id") auto

declare str_nat.simps [simp del]

definition int_max_str_digits :: nat where
  "int_max_str_digits = 4300"

definition int_limit_error :: "nat \<Rightarrow> error" where
  "int_limit_error n =
     ValueError (''Exceeds the limit ('' @ str_nat int_max_str_digits @
                 '' digits) for integer string conversion: value has '' @ str_nat n @
                 '' digits; use sys.set_int_max_str_digits() to increase the limit'')"

definition py_int :: "string \<Rightarrow> error + nat" where
  "py_int s = (if int_max_str_digits < length s then Inl (int_limit_error (length s))
               else Inr (int_of_digits s))"

text \<open>\<open>x or d\<close> for an optional integer \<open>x\<close>: \<open>None\<close> and \<open>0\<close> are false.\<close>

definition py_or :: "nat option \<Rightarrow> nat \<Rightarrow> nat" where
  "py_or x d = (case x of None \<Rightarrow> d | Some n \<Rightarrow> if n = 0 then d else n)"

section \<open>Regular expressions of the orchestrator\<close>

text \<open>
  The fragment of Python's \<open>re\<close> that the orchestrator's patterns use: literals,
  character classes, greedy \<open>*\<close> and \<open>+\<close> on a class, greedy \<open>?\<close>, concatenation and
  one capturing group.  \<open>rx_match\<close> lists the ways a pattern can match at the start
  of the input in the order in which a backtracking matcher tries them; each entry is
  the input left over together with the text of group 1.
\<close>

datatype cls = Digit | Space | Upper | Lower

fun in_cls :: "cls \<Rightarrow> char \<Rightarrow> bool" where
  "in_cls Digit c = (c \<in> set digits)"
| "in_cls Space c = (c \<in> set whitespace)"
| "in_cls Upper c = (c \<in> set ascii_uppercase)"
| "in_cls Lower c = (c \<in> set ascii_lowercase)"

datatype rx =
    Lit string
  | One cls
  | Star cls
  | Plus cls
  | Opt rx
  | Seq rx rx
  | Group rx

type_synonym mstate = "string \<times> string option"

fun rx_match :: "rx \<Rightarrow> mstate \<Rightarrow> mstate list" where
  "rx_match (Lit w) (s, g) = (if startswith s w then [(drop (length w) s, g)] else [])"
| "rx_match (One c) (s, g) =
     (case s of [] \<Rightarrow> [] | x # t \<Rightarrow> if in_cls c x then [(t, g)] else [])"
| "rx_match (Star c) (s, g) =
     map (\<lambda>k. (drop k s, g)) (rev [0 ..< Suc (length (takeWhile (in_cls c) s))])"
| "rx_match (Plus c) (s, g) =
     map (\<lambda>k. (drop k s, g)) (rev [1 ..< Suc (length (takeWhile (in_cls c) s))])"
| "rx_match (Opt r) (s, g) = rx_match r (s, g) @ [(s, g)]"
| "rx_match (Seq r1 r2) (s, g) = concat (map (rx_match r2) (rx_match r1 (s, g)))"
| "rx_match (Group r) (s, g) =
     map (\<lambda>(s', _). (s', Some (take (length s - length s') s))) (rx_match r (s, g))"

text \<open>
  \<open>re.search(pattern, s)\<close>: the first way to match at the leftmost position that has
  one; \<open>None\<close> when no position has.
\<close>

fun re_search :: "rx \<Rightarrow> string \<Rightarrow> mstate option" where
  "re_search r [] = (case rx_match r ([], None) of [] \<Rightarrow> None | m # _ \<Rightarrow> Some m)"
| "re_search r (c # s) =
     (case rx_match r (c # s, None) of [] \<Rightarrow> re_search r s | m # _ \<Rightarrow> Some m)"

text \<open>\<open>match.group(1)\<close>; every pattern below has its group on every path.\<close>

definition group1 :: "mstate \<Rightarrow> string" where
  "group1 m = (case snd m of None \<Rightarrow> [] | Some t \<Rightarrow> t)"

text \<open>
  The loop \<open>for pattern in patterns: match = re.search(pattern, s); if match: return ...\<close>
\<close>

fun first_match :: "rx list \<Rightarrow> string \<Rightarrow> string option" where
  "first_match [] s = None"
| "first_match (p # ps) s =
     (case re_search p s of None \<Rightarrow> first_match ps s | Some m \<Rightarrow> Some (group1 m))"

section \<open>Intent classification and parameter extraction\<close>

definition meal_words :: "string list" where
  "meal_words = [''meal'', ''recipe'', ''cook'', ''eat'', ''food'', ''dinner'', ''lunch'',
                 ''breakfast'']"

definition shopping_words :: "string list" where
  "shopping_words = [''shop'', ''grocery'', ''groceries'', ''buy'', ''ingredient'', ''store'']"

definition travel_words :: "string list" where
  "travel_words = [''travel'', ''trip'', ''vacation'', ''visit'', ''hotel'', ''flight'']"

text \<open>\<open>any(word in message_lower for word in words)\<close>\<close>

definition any_word_in :: "string list \<Rightarrow> string \<Rightarrow> bool" where
  "any_word_in ws s = list_ex (\<lambda>w. py_in w s) ws"

text \<open>\<open>OrchestratorAgent._parse_intent\<close>\<close>

definition parse_intent :: "string \<Rightarrow> string" where
  "parse_intent message =
     (let message_lower = lower message;
          domains = [];
          domains = (if any_word_in meal_words message_lower
                     then domains @ [''meal_planning''] else domains);
          domains = (if any_word_in shopping_words message_lower
                     then domains @ [''shopping''] else domains);
          domains = (if any_word_in travel_words message_lower
                     then domains @ [''travel''] else domains)
      in if length domains = 0 then ''ambiguous''
         else if length domains = 1 then hd domains
         else ''multi_domain'')"

text \<open>\<open>OrchestratorAgent._extract_days\<close>\<close>

definition days_patterns :: "rx list" where
  "days_patterns =
     [Seq (Group (Plus Digit)) (Seq (Star Space) (Seq (Lit ''day'') (Opt (Lit ''s'')))),
      Seq (Group (Plus Digit)) (Lit ''-day''),
      Seq (Lit ''for'') (Seq (Plus Space) (Seq (Group (Plus Digit))
        (Seq (Plus Space) (Seq (Lit ''day'') (Opt (Lit ''s''))))))]"

definition extract_days :: "string \<Rightarrow> error + nat option" where
  "extract_days message =
     (case first_match days_patterns (lower message) of
        Some d \<Rightarrow> (case py_int d of Inl e \<Rightarrow> Inl e | Inr n \<Rightarrow> Inr (Some n))
      | None \<Rightarrow> Inr (if py_in ''week'' (lower message) then Some 7 else None))"

text \<open>\<open>OrchestratorAgent._extract_destination\<close>\<close>

definition place :: rx where
  "place = Group (Seq (One Upper) (Seq (Plus Lower)
             (Opt (Seq (Plus Space) (Seq (One Upper) (Plus Lower))))))"

definition destination_patterns :: "rx list" where
  "destination_patterns =
     [Seq (Lit ''to'') (Seq (Plus Space) place),
      Seq (Lit ''visit'') (Seq (Plus Space) place),
      Seq (Lit ''trip'') (Seq (Plus Space) (Seq (Lit ''to'') (Seq (Plus Space) place))),
      Seq (Lit ''in'') (Seq (Plus Space) place)]"

definition extract_destination :: "string \<Rightarrow> string option" where
  "extract_destination message = first_match destination_patterns message"

section \<open>Values, errors and collaborators\<close>

text \<open>
  JSON-like Python values.  A \<open>dict\<close> is an association list in insertion order;
  \<open>d[k] = v\<close> is \<open>AList.update k v d\<close> (an existing key keeps its place, a new one goes
  last), \<open>del d[k]\<close> is \<open>AList.delete k d\<close>, \<open>k in d\<close> is \<open>k \<in> fst ` set d\<close> and
  \<open>d.get(k)\<close> is \<open>map_of d k\<close>.
\<close>

datatype json =
    JNull
  | JBool bool
  | JNum int
  | JStr string
  | JList "json list"
  | JObj "(string \<times> json) list"

type_synonym dict = "(string \<times> json) list"

text \<open>
  The dictionaries that \<open>route_to_agent\<close> returns: \<open>data\<close> is \<open>None\<close> when the key is
  absent.  The payloads of the domain agents (\<open>MealPlan\<close>, \<open>TripPlan\<close>) are opaque
  here: type parameters \<open>'mp\<close> and \<open>'tp\<close>.
\<close>

datatype ('mp, 'tp) route_result =
    RouteResult (success: bool) (data: "('mp, 'tp) route_data option") (message: string)
and ('mp, 'tp) route_data =
    MealPlanData 'mp
  | TripPlanData 'tp
  | ResultsData "('mp, 'tp) route_result list"

text \<open>
  What the orchestrator is given: the two domain agents it calls, the memory bank,
  the calendar, the clock (\<open>now env i\<close> is the \<open>i\<close>-th reading during a call) and the
  identifier that \<open>uuid.uuid4()\<close> produces.  Dates are day numbers; \<open>isoformat\<close> is
  their rendering.  \<open>meal_plan_summary\<close> and \<open>trip_plan_summary\<close> are the two
  sentences that \<open>_generate_summary\<close> formats from the attributes of a payload.
\<close>

record ('mp, 'tp) env =
  generate_meal_plan :: "string \<Rightarrow> nat \<Rightarrow> dict \<Rightarrow> error + 'mp"
  plan_trip :: "string \<Rightarrow> string \<Rightarrow> int \<times> int \<Rightarrow> int \<Rightarrow> dict \<Rightarrow> error + 'tp"
  get_all_preferences :: "string \<Rightarrow> dict"
  session_memory_bank :: "(string \<Rightarrow> dict) option"
  today :: int
  now :: "nat \<Rightarrow> string"
  uuid4 :: string
  meal_plan_summary :: "'mp \<Rightarrow> string"
  trip_plan_summary :: "'tp \<Rightarrow> string"

text \<open>
  What a call of \<open>route_to_agent\<close> does that can be observed from outside: it logs
  \<open>Routing to agent for intent: ...\<close> on entry, and it calls domain agents.
\<close>

datatype event =
    Routing string
  | GenerateMealPlan string nat dict
  | PlanTrip string string "int \<times> int" int dict

text \<open>
  The \<open>context\<close> dictionary: the four keys that \<open>process_message\<close> sets (\<open>None\<close>:
  the key is absent) and whatever else a caller puts in.
\<close>

record ctx =
  ctx_user_id :: "string option"
  ctx_session_id :: "string option"
  ctx_preferences :: "dict option"
  ctx_message :: "string option"
  ctx_other :: dict

section \<open>The router\<close>

text \<open>\<open>context.get('preferences', {})\<close> and \<open>context.get('message', '')\<close>\<close>

definition get_preferences :: "ctx \<Rightarrow> dict" where
  "get_preferences c = (case ctx_preferences c of None \<Rightarrow> [] | Some p \<Rightarrow> p)"

definition get_message :: "ctx \<Rightarrow> string" where
  "get_message c = (case ctx_message c of None \<Rightarrow> [] | Some m \<Rightarrow> m)"

text \<open>The \<open>except Exception as e\<close> handler of \<open>route_to_agent\<close>.\<close>

definition caught :: "error \<Rightarrow> ('mp, 'tp) route_result" where
  "caught e = RouteResult False None (''Error processing request: '' @ error_str e)"

text \<open>
  One \<open>if ...: results.append(await self.route_to_agent(...))\<close> step of the
  multi-domain branch: an exception of the sub-call ends the branch.
\<close>

fun then_route ::
  "bool \<Rightarrow> event list \<times> (error + ('mp, 'tp) route_result) \<Rightarrow>
   event list \<times> (error + ('mp, 'tp) route_result list) \<Rightarrow>
   event list \<times> (error + ('mp, 'tp) route_result list)" where
  "then_route c call (tr, Inl e) = (tr, Inl e)"
| "then_route c (tr', r) (tr, Inr results) =
     (if c then
        (case r of Inl e \<Rightarrow> (tr @ tr', Inl e)
                 | Inr res \<Rightarrow> (tr @ tr', Inr (results @ [res])))
      else (tr, Inr results))"

text \<open>\<open>OrchestratorAgent.route_to_agent\<close>\<close>

function route_to_agent ::
  "('mp, 'tp) env \<Rightarrow> string \<Rightarrow> ctx \<Rightarrow>
   event list \<times> (error + ('mp, 'tp) route_result)" where
  "route_to_agent env intent ctx =
     (case ctx_user_id ctx of
        None \<Rightarrow> ([Routing intent], Inl (KeyError ''user_id''))
      | Some uid \<Rightarrow>
         (let preferences = get_preferences ctx;
              msg = get_message ctx
          in
          if intent = ''meal_planning'' then
            (case extract_days msg of
               Inl e \<Rightarrow> ([Routing intent], Inr (caught e))
             | Inr extracted \<Rightarrow>
                 (let days = py_or extracted 7
                  in ([Routing intent, GenerateMealPlan uid days preferences],
                      case generate_meal_plan env uid days preferences of
                        Inl e \<Rightarrow> Inr (caught e)
                      | Inr meal_plan \<Rightarrow>
                          Inr (RouteResult True (Some (MealPlanData meal_plan))
                                 (''Generated '' @ str_nat days @ ''-day meal plan'')))))
          else if intent = ''shopping'' then
            ([Routing intent],
             Inr (RouteResult False None
                ''Please generate a meal plan first before creating a shopping list''))
          else if intent = ''travel'' then
            (case extract_destination msg of
               None \<Rightarrow>
                 ([Routing intent],
                  Inr (RouteResult False None ''Please specify a destination for your trip''))
             | Some destination \<Rightarrow>
                 if destination = [] then
                   ([Routing intent],
                    Inr (RouteResult False None ''Please specify a destination for your trip''))
                 else
                   (let start_date = today env + 30;
                        end_date = start_date + 7;
                        budget = 2000
                    in ([Routing intent,
                         PlanTrip uid destination (start_date, end_date) budget preferences],
                        case plan_trip env uid destination (start_date, end_date) budget
                               preferences of
                          Inl e \<Rightarrow> Inr (caught e)
                        | Inr trip_plan \<Rightarrow>
                            Inr (RouteResult True (Some (TripPlanData trip_plan))
                                   (''Created trip plan for '' @ destination)))))
          else if intent = ''multi_domain'' then
            (let acc = ([Routing intent], Inr []);
                 acc = then_route (py_in ''meal'' (lower msg))
                         (route_to_agent env ''meal_planning'' ctx) acc;
                 acc = then_route (py_in ''shop'' (lower msg))
                         (route_to_agent env ''shopping'' ctx) acc;
                 acc = then_route (py_in ''travel'' (lower msg) \<or> py_in ''trip'' (lower msg))
                         (route_to_agent env ''travel'' ctx) acc
             in case acc of
                  (tr, Inl e) \<Rightarrow> (tr, Inr (caught e))
                | (tr, Inr results) \<Rightarrow>
                    (tr, Inr (RouteResult True (Some (ResultsData results))
                                ''Completed multi-domain request'')))
          else
            ([Routing intent], Inr (RouteResult False None (''Unknown intent: '' @ intent)))))"
  by pat_completeness auto
termination
  by (relation "measure (\<lambda>(env, intent, ctx). if intent = ''multi_domain'' then 1 else 0)")
     auto

declare route_to_agent.simps [simp del]

section \<open>Sessions\<close>

text \<open>
  \<open>Session\<close> of \<open>session_manager.py\<close>; the messages that \<open>process_message\<close> stores are the
  plain dictionaries it builds.  \<open>InMemorySessionService._sessions\<close> is a map from
  session identifiers to sessions.
\<close>

record session =
  session_id :: string
  user_id :: string
  messages :: "dict list"
  created_at :: string
  updated_at :: string
  metadata :: dict

type_synonym sessions = "string \<rightharpoonup> session"

text \<open>\<open>SessionManager.create_session\<close>\<close>

definition create_session ::
  "('mp, 'tp) env \<Rightarrow> sessions \<Rightarrow> string \<Rightarrow> string \<times> sessions" where
  "create_session env st uid =
     (let sid = uuid4 env;
          s = \<lparr>session_id = sid, user_id = uid, messages = [],
               created_at = now env 0, updated_at = now env 1, metadata = []\<rparr>;
          s = (case session_memory_bank env of
                 None \<Rightarrow> s
               | Some bank \<Rightarrow>
                   s\<lparr>metadata := AList.update ''preferences'' (JObj (bank uid)) (metadata s)\<rparr>)
      in (sid, st(sid \<mapsto> s)))"

text \<open>\<open>SessionManager.update_session\<close>\<close>

definition update_session ::
  "('mp, 'tp) env \<Rightarrow> sessions \<Rightarrow> string \<Rightarrow> dict list \<Rightarrow> sessions" where
  "update_session env st sid new_messages =
     (case st sid of
        None \<Rightarrow> st
      | Some s \<Rightarrow>
          st(sid \<mapsto> s\<lparr>messages := messages s @ new_messages, updated_at := now env 2\<rparr>))"

section \<open>The orchestrator\<close>

text \<open>\<open>OrchestratorAgent._generate_clarifying_questions\<close>\<close>

definition generate_clarifying_questions :: "string \<Rightarrow> string" where
  "generate_clarifying_questions msg =
     ''I'' @ [CHR 0x27] @ ''m not sure what you'' @ [CHR 0x27] @ ''d like help with. '' @
     ''I can assist with:'' @ [CHR 0x0A] @
     ''- Meal planning (creating weekly meal plans)'' @ [CHR 0x0A] @
     ''- Shopping lists (generating grocery lists)'' @ [CHR 0x0A] @
     ''- Travel planning (planning trips and itineraries)'' @ [CHR 0x0A, CHR 0x0A] @
     ''What would you like to do?''"

text \<open>
  \<open>OrchestratorAgent._generate_summary\<close>.  The check mark is its three UTF-8 bytes.
  A payload that lacks the attributes its branch reads raises \<open>AttributeError\<close>
  (\<open>TypeError\<close> when the multi-domain branch iterates over one); a payload object is
  always true, a list is true when it is not empty.
\<close>

definition check_mark :: string where
  "check_mark = [CHR 0xE2, CHR 0x9C, CHR 0x93]"

definition join_lines :: "string list \<Rightarrow> string" where
  "join_lines xs = (case xs of [] \<Rightarrow> [] | y # ys \<Rightarrow> y @ concat (map (\<lambda>z. CHR 0x0A # z) ys))"

definition generate_summary ::
  "('mp, 'tp) env \<Rightarrow> string \<Rightarrow> ('mp, 'tp) route_result \<Rightarrow> error + string" where
  "generate_summary env intent result =
     (if \<not> success result then Inr (message result)
      else if intent = ''meal_planning'' then
        (case data result of
           None \<Rightarrow> Inr (message result)
         | Some (MealPlanData meal_plan) \<Rightarrow> Inr (meal_plan_summary env meal_plan)
         | Some (TripPlanData _) \<Rightarrow> Inl (AttributeError ''meals'')
         | Some (ResultsData []) \<Rightarrow> Inr (message result)
         | Some (ResultsData (_ # _)) \<Rightarrow> Inl (AttributeError ''duration_days''))
      else if intent = ''shopping'' then
        (case data result of
           None \<Rightarrow> Inr (message result)
         | Some (ResultsData []) \<Rightarrow> Inr (message result)
         | Some _ \<Rightarrow> Inl (AttributeError ''items''))
      else if intent = ''travel'' then
        (case data result of
           None \<Rightarrow> Inr (message result)
         | Some (TripPlanData trip_plan) \<Rightarrow> Inr (trip_plan_summary env trip_plan)
         | Some (MealPlanData _) \<Rightarrow> Inl (AttributeError ''destination'')
         | Some (ResultsData []) \<Rightarrow> Inr (message result)
         | Some (ResultsData (_ # _)) \<Rightarrow> Inl (AttributeError ''duration_days''))
      else if intent = ''multi_domain'' then
        (case data result of
           None \<Rightarrow> Inr (check_mark @ '' Completed multiple tasks:'' @ [CHR 0x0A])
         | Some (ResultsData results) \<Rightarrow>
             (let summaries = map message (filter success results)
              in Inr (check_mark @ '' Completed multiple tasks:'' @ [CHR 0x0A] @
                      join_lines (map (\<lambda>s. ''  - '' @ s) summaries)))
         | Some _ \<Rightarrow> Inl (TypeError ''object is not iterable''))
      else Inr (message result))"

text \<open>
  The dictionary that \<open>process_message\<close> returns, as the list of its items.
\<close>

datatype ('mp, 'tp) pyval =
    VStr string
  | VBool bool
  | VNone
  | VData "('mp, 'tp) route_data"

type_synonym ('mp, 'tp) reply = "(string \<times> ('mp, 'tp) pyval) list"

text \<open>
  \<open>OrchestratorAgent.process_message\<close>, on the session store: it returns the store it
  leaves behind, what the router did, and either the exception that escapes or the
  returned dictionary.  \<open>session_id\<close> is \<open>None\<close> when the argument is omitted;
  \<open>not session_id\<close> also holds for the empty string.
\<close>

definition process_message ::
  "('mp, 'tp) env \<Rightarrow> sessions \<Rightarrow> string \<Rightarrow> string \<Rightarrow> string option \<Rightarrow>
   sessions \<times> event list \<times> (error + ('mp, 'tp) reply)" where
  "process_message env st uid msg sid_arg =
     (let (sid, st) = (case sid_arg of
                         None \<Rightarrow> create_session env st uid
                       | Some s \<Rightarrow> if s = [] then create_session env st uid else (s, st));
          preferences = get_all_preferences env uid;
          intent = parse_intent msg
      in
      if intent = ''ambiguous'' then
        (st, [], Inr [(''response'', VStr (generate_clarifying_questions msg)),
                      (''intent'', VStr ''ambiguous''),
                      (''requires_clarification'', VBool True)])
      else
        (let context = \<lparr>ctx_user_id = Some uid, ctx_session_id = Some sid,
                        ctx_preferences = Some preferences, ctx_message = Some msg,
                        ctx_other = []\<rparr>;
             (events, routed) = route_to_agent env intent context
         in case routed of
              Inl e \<Rightarrow> (st, events, Inl e)
            | Inr result \<Rightarrow>
                (case generate_summary env intent result of
                   Inl e \<Rightarrow> (st, events, Inl e)
                 | Inr summary \<Rightarrow>
                     (update_session env st sid
                        [[(''role'', JStr ''user''), (''content'', JStr msg)],
                         [(''role'', JStr ''assistant''), (''content'', JStr summary)]],
                      events,
                      Inr [(''response'', VStr summary),
                           (''intent'', VStr intent),
                           (''data'', case data result of None \<Rightarrow> VNone | Some d \<Rightarrow> VData d),
                           (''session_id'', VStr sid)]))))"

section \<open>State persistence\<close>

text \<open>
  The storage directory: a map from file names to the JSON documents that the files
  hold.  Every file that \<open>StatePersistence\<close> writes holds a dictionary.  A file is
  addressed by the name that the code joins to the storage path, which is what it is for
  identifiers that are plain file-name components; names that \<open>pathlib\<close> resolves to
  another file or that \<open>open\<close> refuses (a path separator, a NUL) are outside this model.  Task
  identifiers are strings; a user identifier is whatever the state holds under
  \<open>user_id\<close>, and \<open>fmt\<close> is Python's formatting of such a value inside an f-string
  for the values that are not strings.
\<close>

type_synonym storage = "string \<rightharpoonup> dict"

definition format_value :: "(json \<Rightarrow> string) \<Rightarrow> json \<Rightarrow> string" where
  "format_value fmt v = (case v of JStr s \<Rightarrow> s | _ \<Rightarrow> fmt v)"

text \<open>\<open>StatePersistence._get_state_file\<close>, \<open>_get_user_index_file\<close>\<close>

definition get_state_file :: "string \<Rightarrow> string" where
  "get_state_file task_id = task_id @ ''.json''"

definition get_user_index_file :: "(json \<Rightarrow> string) \<Rightarrow> json \<Rightarrow> string" where
  "get_user_index_file fmt uid = ''user_'' @ format_value fmt uid @ ''_index.json''"

text \<open>\<open>StatePersistence._load_user_index\<close>, \<open>_save_user_index\<close>\<close>

definition load_user_index :: "(json \<Rightarrow> string) \<Rightarrow> storage \<Rightarrow> json \<Rightarrow> dict" where
  "load_user_index fmt fs uid =
     (case fs (get_user_index_file fmt uid) of Some index \<Rightarrow> index | None \<Rightarrow> [])"

definition save_user_index :: "(json \<Rightarrow> string) \<Rightarrow> storage \<Rightarrow> json \<Rightarrow> dict \<Rightarrow> storage" where
  "save_user_index fmt fs uid index = fs(get_user_index_file fmt uid \<mapsto> index)"

text \<open>\<open>state.get(key, default)\<close>\<close>

definition dict_get :: "dict \<Rightarrow> string \<Rightarrow> json \<Rightarrow> json" where
  "dict_get d k dflt = (case map_of d k of Some v \<Rightarrow> v | None \<Rightarrow> dflt)"

text \<open>\<open>StatePersistence.save_state\<close>; \<open>stamp\<close> is the reading of the clock.\<close>

definition save_state ::
  "(json \<Rightarrow> string) \<Rightarrow> string \<Rightarrow> storage \<Rightarrow> string \<Rightarrow> dict \<Rightarrow> error + storage" where
  "save_state fmt stamp fs task_id state =
     (case map_of state ''user_id'' of
        None \<Rightarrow> Inl (ValueError (''State must include '' @ [CHR 0x27] @ ''user_id'' @
                                  [CHR 0x27] @ '' field''))
      | Some uid \<Rightarrow>
          (let state_with_metadata =
                 AList.update ''saved_at'' (JStr stamp)
                   (AList.update ''task_id'' (JStr task_id) state);
               fs = fs(get_state_file task_id \<mapsto> state_with_metadata);
               index = load_user_index fmt fs uid;
               index = AList.update task_id
                         (JObj [(''task_id'', JStr task_id),
                                (''agent_type'', dict_get state ''agent_type'' (JStr ''unknown'')),
                                (''status'', dict_get state ''status'' (JStr ''paused'')),
                                (''saved_at'', dict_get state_with_metadata ''saved_at'' JNull)])
                         index
           in Inr (save_user_index fmt fs uid index)))"

text \<open>\<open>StatePersistence.load_state\<close>\<close>

definition load_state :: "storage \<Rightarrow> string \<Rightarrow> dict option" where
  "load_state fs task_id = fs (get_state_file task_id)"

text \<open>\<open>StatePersistence.delete_state\<close>\<close>

definition delete_state :: "(json \<Rightarrow> string) \<Rightarrow> storage \<Rightarrow> string \<Rightarrow> storage" where
  "delete_state fmt fs task_id =
     (let state = load_state fs task_id;
          fs = fs(get_state_file task_id := None)
      in case state of
           None \<Rightarrow> fs
         | Some st \<Rightarrow>
             (case map_of st ''user_id'' of
                None \<Rightarrow> fs
              | Some uid \<Rightarrow>
                  (let index = load_user_index fmt fs uid
                   in if task_id \<in> fst ` set index
                      then save_user_index fmt fs uid (AList.delete task_id index)
                      else fs)))"

text \<open>\<open>StatePersistence.list_paused_tasks\<close>, \<open>task_exists\<close>\<close>

definition list_paused_tasks :: "(json \<Rightarrow> string) \<Rightarrow> storage \<Rightarrow> json \<Rightarrow> json list" where
  "list_paused_tasks fmt fs uid = map snd (load_user_index fmt fs uid)"

definition task_exists :: "storage \<Rightarrow> string \<Rightarrow> bool" where
  "task_exists fs task_id = (fs (get_state_file task_id) \<noteq> None)"


section \<open>Notions used to state the properties\<close>

text \<open>
  A keyword set is present in a message when one of its words occurs in the lower-cased
  message as a contiguous substring.
\<close>

definition keyword_present :: "string list \<Rightarrow> string \<Rightarrow> bool" where
  "keyword_present ws msg \<longleftrightarrow> (\<exists>w \<in> set ws. \<exists>p q. lower msg = p @ w @ q)"

text \<open>A pattern captures when every way it matches sets group 1 to a non-empty text.\<close>

definition captures :: "rx \<Rightarrow> bool" where
  "captures r \<longleftrightarrow>
     (\<forall>s g s' g'. (s', g') \<in> set (rx_match r (s, g)) \<longrightarrow> (\<exists>t. g' = Some t \<and> t \<noteq> []))"

text \<open>
  The domains of a multi-domain message by the narrower word test, in call order.
\<close>

definition sub_intents :: "string \<Rightarrow> string list" where
  "sub_intents msg =
     (if py_in ''meal'' (lower msg) then [''meal_planning''] else []) @
     (if py_in ''shop'' (lower msg) then [''shopping''] else []) @
     (if py_in ''travel'' (lower msg) \<or> py_in ''trip'' (lower msg) then [''travel''] else [])"

fun is_routing :: "event \<Rightarrow> bool" where
  "is_routing (Routing i) = True"
| "is_routing _ = False"

text \<open>The \<open>task_id\<close> that an entry of a task list carries.\<close>

definition entry_task_id :: "json \<Rightarrow> json option" where
  "entry_task_id e = (case e of JObj d \<Rightarrow> map_of d ''task_id'' | _ \<Rightarrow> None)"


text \<open>The \<open>session_id\<close> argument counts as absent when it is omitted or empty.\<close>

definition session_absent :: "string option \<Rightarrow> bool" where
  "session_absent sid \<longleftrightarrow> (sid = None \<or> sid = Some [])"

text \<open>The session that \<open>create_session\<close> stores for a user.\<close>

definition new_session :: "('mp, 'tp) env \<Rightarrow> string \<Rightarrow> session" where
  "new_session env uid =
     \<lparr>session_id = uuid4 env, user_id = uid, messages = [],
      created_at = now env 0, updated_at = now env 1,
      metadata = (case session_memory_bank env of
                    None \<Rightarrow> []
                  | Some bank \<Rightarrow> [(''preferences'', JObj (bank uid))])\<rparr>"

text \<open>The entries of a task list whose \<open>task_id\<close> is a given one.\<close>

definition entries_with_task_id :: "string \<Rightarrow> json list \<Rightarrow> json list" where
  "entries_with_task_id t es = filter (\<lambda>e. entry_task_id e = Some (JStr t)) es"

text \<open>A task state with \<open>task_id\<close> and \<open>saved_at\<close> stamped in.\<close>

definition stamped :: "string \<Rightarrow> string \<Rightarrow> dict \<Rightarrow> dict" where
  "stamped task_id stamp state =
     AList.update ''saved_at'' (JStr stamp) (AList.update ''task_id'' (JStr task_id) state)"

section \<open>Concrete collaborators and inputs\<close>

text \<open>
  An environment whose agents answer (a meal plan is stood for by its day count, a trip
  plan by its destination), one whose agents raise, and a context as
  \<open>process_message\<close> builds it.
\<close>

definition demo_env :: "(nat, string) env" where
  "demo_env =
     \<lparr>generate_meal_plan =
        (\<lambda>u d p. if d < 1 then Inl (ValueError ''Days must be at least 1'') else Inr d),
      plan_trip = (\<lambda>u dest dates b p. Inr dest),
      get_all_preferences = (\<lambda>u. []),
      session_memory_bank = None,
      today = 100,
      now = (\<lambda>i. ''2026-01-01T00:00:00+00:00''),
      uuid4 = ''session-1'',
      meal_plan_summary = (\<lambda>d. ''Created a meal plan''),
      trip_plan_summary = (\<lambda>t. ''Planned a trip'')\<rparr>"

definition failing_env :: "(nat, string) env" where
  "failing_env =
     demo_env\<lparr>generate_meal_plan := (\<lambda>u d p. Inl (AgentError ''recipe service down'')),
               plan_trip := (\<lambda>u dest dates b p. Inl (AgentError ''no accommodations''))\<rparr>"

definition demo_ctx :: "string \<Rightarrow> ctx" where
  "demo_ctx msg =
     \<lparr>ctx_user_id = Some ''u1'', ctx_session_id = Some ''session-1'',
      ctx_preferences = Some [], ctx_message = Some msg, ctx_other = []\<rparr>"

definition override_ctx :: ctx where
  "override_ctx =
     (demo_ctx ''Plan a trip to Paris'')
       \<lparr>ctx_other := [(''budget'', JNum 500), (''start_date'', JStr ''2027-03-01''),
                      (''end_date'', JStr ''2027-03-04'')]\<rparr>"

definition demo_fmt :: "json \<Rightarrow> string" where
  "demo_fmt v = []"

text \<open>A message that asks for a number of days written with 4301 digits.\<close>

definition long_count_message :: string where
  "long_count_message = replicate 4301 CHR ''1'' @ '' days''"

text \<open>
  Task states and stores: a state saved under a task identifier that spells the name of
  its user's index file, an ordinary task saved into an empty store, and a task saved
  first for one user and then for another.
\<close>

definition collision_state :: dict where
  "collision_state =
     [(''user_id'', JStr ''alice''),
      (''context'', JObj [(''task_id'', JStr ''user_alice_index'')])]"

definition collision_store :: storage where
  "collision_store =
     projr (save_state demo_fmt ''T1'' Map.empty ''user_alice_index'' collision_state)"



definition owner_change_store :: storage where
  "owner_change_store =
     projr (save_state demo_fmt ''T2''
              (projr (save_state demo_fmt ''T1'' Map.empty ''t1'' [(''user_id'', JStr ''alice'')]))
              ''t1'' [(''user_id'', JStr ''bob'')])"

section \<open>Substring test and classification\<close>

lemma startswith_iff: "startswith s w \<longleftrightarrow> (\<exists>q. s = w @ q)"
  by (induction s w rule: startswith.induct) auto

lemma py_in_iff: "py_in w s \<longleftrightarrow> (\<exists>p q. s = p @ w @ q)"
proof (induction s)
  case Nil
  then show ?case by auto
next
  case (Cons c s)
  show ?case
  proof
    assume "py_in w (c # s)"
    then consider "startswith (c # s) w" | "py_in w s" by auto
    then show "\<exists>p q. c # s = p @ w @ q"
    proof cases
      case 1
      then obtain q where "c # s = w @ q" by (auto simp: startswith_iff)
      then have "c # s = [] @ w @ q" by simp
      then show ?thesis by blast
    next
      case 2
      then obtain p q where "s = p @ w @ q" using Cons.IH by blast
      then have "c # s = (c # p) @ w @ q" by simp
      then show ?thesis by blast
    qed
  next
    assume "\<exists>p q. c # s = p @ w @ q"
    then obtain p q where pq: "c # s = p @ w @ q" by blast
    show "py_in w (c # s)"
    proof (cases p)
      case Nil
      with pq have "startswith (c # s) w" by (auto simp: startswith_iff)
      then show ?thesis by simp
    next
      case (Cons a p')
      with pq have "s = p' @ w @ q" by simp
      then have "py_in w s" using Cons.IH by blast
      then show ?thesis by simp
    qed
  qed
qed

lemma any_word_in_iff: "any_word_in ws (lower msg) \<longleftrightarrow> keyword_present ws msg"
  by (simp add: any_word_in_def keyword_present_def list_ex_iff py_in_iff)

text \<open>
  C1.  For every message, \<open>_parse_intent\<close> looks at the lower-cased message and at
  which of the three keyword sets (meal, shopping, travel) has a word occurring in it as
  a substring: it returns \<open>ambiguous\<close> when none has, the intent of the one domain when
  exactly one has, and \<open>multi_domain\<close> when two or three have.
\<close>

theorem parse_intent_classifies:
  "parse_intent msg =
     (let meal = keyword_present meal_words msg;
          shopping = keyword_present shopping_words msg;
          travel = keyword_present travel_words msg
      in if \<not> meal \<and> \<not> shopping \<and> \<not> travel then ''ambiguous''
         else if meal \<and> \<not> shopping \<and> \<not> travel then ''meal_planning''
         else if \<not> meal \<and> shopping \<and> \<not> travel then ''shopping''
         else if \<not> meal \<and> \<not> shopping \<and> travel then ''travel''
         else ''multi_domain'')"
  by (simp add: parse_intent_def Let_def any_word_in_iff)

theorem parse_intent_classifies_witness:
  "keyword_present meal_words ''Create a 5-day vegetarian meal plan'' \<and>
   \<not> keyword_present shopping_words ''Create a 5-day vegetarian meal plan'' \<and>
   \<not> keyword_present travel_words ''Create a 5-day vegetarian meal plan'' \<and>
   parse_intent ''Create a 5-day vegetarian meal plan'' = ''meal_planning''"
proof -
  let ?m = "''Create a 5-day vegetarian meal plan''"
  have a: "any_word_in meal_words (lower ?m)" by code_simp
  have b: "\<not> any_word_in shopping_words (lower ?m)" by code_simp
  have c: "\<not> any_word_in travel_words (lower ?m)" by code_simp
  from a b c parse_intent_classifies [of ?m] show ?thesis
    by (simp add: any_word_in_iff Let_def)
qed

section \<open>What the patterns capture\<close>

lemma rx_match_SeqD:
  "(s', g') \<in> set (rx_match (Seq r1 r2) (s, g)) \<Longrightarrow>
   \<exists>t h. (t, h) \<in> set (rx_match r1 (s, g)) \<and> (s', g') \<in> set (rx_match r2 (t, h))"
  by auto

lemma rx_match_GroupD:
  "(s', g') \<in> set (rx_match (Group r) (s, g)) \<Longrightarrow>
   \<exists>h. (s', h) \<in> set (rx_match r (s, g)) \<and> g' = Some (take (length s - length s') s)"
  by auto

lemma rx_match_OneD:
  "(t, h) \<in> set (rx_match (One c) (s, g)) \<Longrightarrow> \<exists>x. s = x # t"
  by (auto split: list.splits if_splits)

lemma rx_match_length:
  "(s', g') \<in> set (rx_match r (s, g)) \<Longrightarrow> length s' \<le> length s"
proof (induction r arbitrary: s g s' g')
  case (Seq r1 r2)
  from rx_match_SeqD [OF Seq.prems] obtain t h
    where m: "(t, h) \<in> set (rx_match r1 (s, g))"
      and r: "(s', g') \<in> set (rx_match r2 (t, h))" by blast
  from Seq.IH(1) m have "length t \<le> length s" by blast
  moreover from Seq.IH(2) r have "length s' \<le> length t" by blast
  ultimately show ?case by simp
next
  case (Opt r)
  then show ?case by auto
next
  case (Group r)
  then show ?case by auto
qed (auto split: list.splits if_splits)

lemma captures_Seq: "captures r2 \<Longrightarrow> captures (Seq r1 r2)"
  unfolding captures_def by (blast dest: rx_match_SeqD)

lemma captures_place: "captures place"
  unfolding captures_def
proof (intro allI impI)
  fix s g s' g'
  define inner where
    "inner = Seq (Plus Lower) (Opt (Seq (Plus Space) (Seq (One Upper) (Plus Lower))))"
  assume "(s', g') \<in> set (rx_match place (s, g))"
  then have "(s', g') \<in> set (rx_match (Group (Seq (One Upper) inner)) (s, g))"
    by (simp only: place_def inner_def)
  from rx_match_GroupD [OF this] obtain h
    where in_body: "(s', h) \<in> set (rx_match (Seq (One Upper) inner) (s, g))"
      and g': "g' = Some (take (length s - length s') s)" by blast
  from rx_match_SeqD [OF in_body] obtain t k
    where m: "(t, k) \<in> set (rx_match (One Upper) (s, g))"
      and rest: "(s', h) \<in> set (rx_match inner (t, k))" by blast
  from rx_match_OneD [OF m] obtain x where s: "s = x # t" by blast
  from rest have "length s' \<le> length t" by (rule rx_match_length)
  with s have "take (length s - length s') s \<noteq> []" by auto
  with g' show "\<exists>t. g' = Some t \<and> t \<noteq> []" by blast
qed

lemma re_search_in:
  "re_search r s = Some m \<Longrightarrow> \<exists>t. m \<in> set (rx_match r (t, None))"
proof (induction s)
  case Nil
  then have "m \<in> set (rx_match r ([], None))" by (auto split: list.splits)
  then show ?case by blast
next
  case (Cons c s)
  show ?case
  proof (cases "rx_match r (c # s, None)")
    case Nil
    with Cons show ?thesis by simp
  next
    case (Cons m' ms)
    with Cons.prems have "m \<in> set (rx_match r (c # s, None))" by simp
    then show ?thesis by blast
  qed
qed

lemma first_match_captures:
  "\<forall>p \<in> set ps. captures p \<Longrightarrow> first_match ps s = Some d \<Longrightarrow> d \<noteq> []"
proof (induction ps)
  case Nil
  then show ?case by simp
next
  case (Cons p ps)
  show ?case
  proof (cases "re_search p s")
    case None
    with Cons show ?thesis by simp
  next
    case (Some m)
    then obtain t where "m \<in> set (rx_match p (t, None))" using re_search_in by blast
    then have "(fst m, snd m) \<in> set (rx_match p (t, None))" by simp
    moreover have "captures p" using Cons.prems(1) by simp
    ultimately obtain u where "snd m = Some u" "u \<noteq> []"
      unfolding captures_def by blast
    with Some Cons.prems(2) show ?thesis by (simp add: group1_def)
  qed
qed

lemma extract_destination_nonempty:
  "extract_destination msg = Some d \<Longrightarrow> d \<noteq> []"
  unfolding extract_destination_def
  by (rule first_match_captures [of destination_patterns])
     (simp_all add: destination_patterns_def captures_Seq captures_place)

section \<open>The router, intent by intent\<close>

lemma route_no_user:
  "ctx_user_id ctx = None \<Longrightarrow>
   route_to_agent env intent ctx = ([Routing intent], Inl (KeyError ''user_id''))"
  by (subst route_to_agent.simps) simp

lemma route_meal:
  "ctx_user_id ctx = Some uid \<Longrightarrow>
   route_to_agent env ''meal_planning'' ctx =
     (case extract_days (get_message ctx) of
        Inl e \<Rightarrow> ([Routing ''meal_planning''], Inr (caught e))
      | Inr extracted \<Rightarrow>
          ([Routing ''meal_planning'',
            GenerateMealPlan uid (py_or extracted 7) (get_preferences ctx)],
           Inr (case generate_meal_plan env uid (py_or extracted 7) (get_preferences ctx) of
                  Inl e \<Rightarrow> caught e
                | Inr meal_plan \<Rightarrow>
                    RouteResult True (Some (MealPlanData meal_plan))
                      (''Generated '' @ str_nat (py_or extracted 7) @ ''-day meal plan''))))"
  by (subst route_to_agent.simps) (simp add: Let_def split: sum.splits)

lemma route_shopping:
  "ctx_user_id ctx = Some uid \<Longrightarrow>
   route_to_agent env ''shopping'' ctx =
     ([Routing ''shopping''],
      Inr (RouteResult False None
             ''Please generate a meal plan first before creating a shopping list''))"
  by (subst route_to_agent.simps) (simp add: Let_def)

lemma route_travel:
  assumes u: "ctx_user_id ctx = Some uid"
  shows "route_to_agent env ''travel'' ctx =
     (case extract_destination (get_message ctx) of
        None \<Rightarrow>
          ([Routing ''travel''],
           Inr (RouteResult False None ''Please specify a destination for your trip''))
      | Some destination \<Rightarrow>
          ([Routing ''travel'',
            PlanTrip uid destination (today env + 30, today env + 30 + 7) 2000
              (get_preferences ctx)],
           Inr (case plan_trip env uid destination (today env + 30, today env + 30 + 7) 2000
                       (get_preferences ctx) of
                  Inl e \<Rightarrow> caught e
                | Inr trip_plan \<Rightarrow>
                    RouteResult True (Some (TripPlanData trip_plan))
                      (''Created trip plan for '' @ destination))))"
proof (cases "extract_destination (get_message ctx)")
  case None
  with u show ?thesis by (subst route_to_agent.simps) (simp add: Let_def)
next
  case (Some d)
  then have ne: "d \<noteq> []" by (rule extract_destination_nonempty)
  show ?thesis
  proof (cases "plan_trip env uid d (today env + 30, today env + 30 + 7) 2000
                  (get_preferences ctx)")
    case (Inl e)
    with u Some ne show ?thesis by (subst route_to_agent.simps) (simp add: Let_def)
  next
    case (Inr p)
    with u Some ne show ?thesis by (subst route_to_agent.simps) (simp add: Let_def)
  qed
qed

lemma route_unknown:
  "ctx_user_id ctx = Some uid \<Longrightarrow>
   intent \<notin> {''meal_planning'', ''shopping'', ''travel'', ''multi_domain''} \<Longrightarrow>
   route_to_agent env intent ctx =
     ([Routing intent], Inr (RouteResult False None (''Unknown intent: '' @ intent)))"
  by (subst route_to_agent.simps) (simp add: Let_def)

lemma route_single_returns:
  assumes "ctx_user_id ctx = Some uid" and "intent \<noteq> ''multi_domain''"
  shows "\<exists>tr r. route_to_agent env intent ctx = (tr, Inr r) \<and>
                filter is_routing tr = [Routing intent]"
proof -
  consider "intent = ''meal_planning''" | "intent = ''shopping''" | "intent = ''travel''"
    | "intent \<notin> {''meal_planning'', ''shopping'', ''travel'', ''multi_domain''}"
    using assms(2) by blast
  then show ?thesis
  proof cases
    case 1
    then show ?thesis using route_meal [OF assms(1), of env] by (simp split: sum.splits)
  next
    case 2
    then show ?thesis using route_shopping [OF assms(1), of env] by simp
  next
    case 3
    then show ?thesis using route_travel [OF assms(1), of env]
      by (simp split: option.splits)
  next
    case 4
    then show ?thesis using route_unknown [OF assms(1), of intent env] by simp
  qed
qed

lemma then_route_Inr:
  "then_route c (tr', Inr res) (tr, Inr results) =
     (if c then (tr @ tr', Inr (results @ [res])) else (tr, Inr results))"
  by simp

lemma route_multi:
  assumes u: "ctx_user_id ctx = Some uid"
  shows "route_to_agent env ''multi_domain'' ctx =
           (Routing ''multi_domain'' #
              concat (map (\<lambda>i. fst (route_to_agent env i ctx)) (sub_intents (get_message ctx))),
            Inr (RouteResult True
                   (Some (ResultsData
                      (map (\<lambda>i. projr (snd (route_to_agent env i ctx)))
                         (sub_intents (get_message ctx)))))
                   ''Completed multi-domain request''))"
proof -
  obtain t1 r1 where m: "route_to_agent env ''meal_planning'' ctx = (t1, Inr r1)"
    using route_single_returns [OF u, of "''meal_planning''" env] by auto
  obtain t2 r2 where s: "route_to_agent env ''shopping'' ctx = (t2, Inr r2)"
    using route_single_returns [OF u, of "''shopping''" env] by auto
  obtain t3 r3 where t: "route_to_agent env ''travel'' ctx = (t3, Inr r3)"
    using route_single_returns [OF u, of "''travel''" env] by auto
  show ?thesis
    by (subst route_to_agent.simps)
       (simp add: u m s t Let_def sub_intents_def)
qed

section \<open>Day counts and destinations\<close>

lemma first_match_None_iff:
  "first_match ps s = None \<longleftrightarrow> (\<forall>p \<in> set ps. re_search p s = None)"
  by (induction ps) (auto split: option.splits)

lemma first_match_Some_iff:
  "first_match ps s = Some d \<longleftrightarrow>
     (\<exists>i < length ps. (\<forall>j < i. re_search (ps ! j) s = None) \<and>
        (\<exists>m. re_search (ps ! i) s = Some m \<and> group1 m = d))"
proof (induction ps)
  case Nil
  then show ?case by simp
next
  case (Cons p ps)
  show ?case
  proof (cases "re_search p s")
    case None
    have "(\<exists>i < length (p # ps). (\<forall>j < i. re_search ((p # ps) ! j) s = None) \<and>
             (\<exists>m. re_search ((p # ps) ! i) s = Some m \<and> group1 m = d)) \<longleftrightarrow>
          (\<exists>i < length ps. (\<forall>j < i. re_search (ps ! j) s = None) \<and>
             (\<exists>m. re_search (ps ! i) s = Some m \<and> group1 m = d))"
      (is "?L \<longleftrightarrow> ?R")
    proof
      assume ?L
      then obtain i m where i: "i < length (p # ps)"
        and before: "\<forall>j < i. re_search ((p # ps) ! j) s = None"
        and at: "re_search ((p # ps) ! i) s = Some m" "group1 m = d" by blast
      from at None obtain k where k: "i = Suc k" by (cases i) auto
      with i have "k < length ps" by simp
      moreover have "\<forall>j < k. re_search (ps ! j) s = None"
      proof (intro allI impI)
        fix j assume "j < k"
        then have "Suc j < i" using k by simp
        with before have "re_search ((p # ps) ! Suc j) s = None" by blast
        then show "re_search (ps ! j) s = None" by simp
      qed
      moreover from at k have "re_search (ps ! k) s = Some m" by simp
      ultimately show ?R using at(2) by blast
    next
      assume ?R
      then obtain i m where i: "i < length ps"
        and before: "\<forall>j < i. re_search (ps ! j) s = None"
        and at: "re_search (ps ! i) s = Some m" "group1 m = d" by blast
      have "\<forall>j < Suc i. re_search ((p # ps) ! j) s = None"
      proof (intro allI impI)
        fix j assume "j < Suc i"
        then show "re_search ((p # ps) ! j) s = None"
          using None before by (cases j) auto
      qed
      moreover have "Suc i < length (p # ps)" using i by simp
      moreover have "re_search ((p # ps) ! Suc i) s = Some m" using at by simp
      ultimately show ?L using at(2) by blast
    qed
    with None Cons.IH show ?thesis by simp
  next
    case (Some m)
    have "(\<exists>i < length (p # ps). (\<forall>j < i. re_search ((p # ps) ! j) s = None) \<and>
             (\<exists>m. re_search ((p # ps) ! i) s = Some m \<and> group1 m = d)) \<longleftrightarrow> group1 m = d"
      (is "?L \<longleftrightarrow> _")
    proof
      assume ?L
      then obtain i m' where before: "\<forall>j < i. re_search ((p # ps) ! j) s = None"
        and at: "re_search ((p # ps) ! i) s = Some m'" "group1 m' = d" by blast
      have "i = 0"
      proof (rule ccontr)
        assume "i \<noteq> 0"
        then have "0 < i" by simp
        with before have "re_search ((p # ps) ! 0) s = None" by blast
        with Some show False by simp
      qed
      with at Some show "group1 m = d" by simp
    next
      assume "group1 m = d"
      with Some have "0 < length (p # ps) \<and> (\<forall>j < 0. re_search ((p # ps) ! j) s = None) \<and>
        (\<exists>m. re_search ((p # ps) ! 0) s = Some m \<and> group1 m = d)" by simp
      then show ?L by blast
    qed
    with Some show ?thesis by auto
  qed
qed

lemma extract_days_cases:
  "extract_days msg =
     (case first_match days_patterns (lower msg) of
        None \<Rightarrow> Inr (if py_in ''week'' (lower msg) then Some 7 else None)
      | Some d \<Rightarrow>
          if int_max_str_digits < length d then Inl (int_limit_error (length d))
          else Inr (Some (int_of_digits d)))"
  by (simp add: extract_days_def py_int_def split: option.splits)

text \<open>
  A captured count of 0.  In \<open>meal plan for 0 days\<close> the first pattern captures \<open>0\<close>;
  the router computes \<open>_extract_days(message) or 7\<close>, where 0 is false, and calls the
  meal agent with 7 days.
\<close>

lemma zero_count_falls_back:
  "first_match days_patterns (lower ''meal plan for 0 days'') = Some ''0'' \<and>
   int_of_digits ''0'' = 0 \<and>
   fst (route_to_agent demo_env ''meal_planning'' (demo_ctx ''meal plan for 0 days'')) =
     [Routing ''meal_planning'', GenerateMealPlan ''u1'' 7 []]"
  by code_simp

text \<open>A count of \<open>n\<close> ones followed by \<open>days\<close>: what the first pattern does with it.\<close>

lemma lower_ones_days:
  "lower (replicate n CHR ''1'' @ '' days'') = replicate n CHR ''1'' @ '' days''"
proof -
  have a: "lower_char CHR ''1'' = CHR ''1''" by code_simp
  have b: "map lower_char '' days'' = '' days''" by code_simp
  show ?thesis unfolding lower_def map_append map_replicate a b ..
qed

lemma takeWhile_replicate_append:
  "P c \<Longrightarrow> takeWhile P (replicate n c @ ys) = replicate n c @ takeWhile P ys"
  by (induction n) simp_all

lemma takeWhile_ones_days:
  "takeWhile (in_cls Digit) (replicate n CHR ''1'' @ '' days'') = replicate n CHR ''1''"
proof -
  have a: "in_cls Digit CHR ''1''" by code_simp
  have b: "takeWhile (in_cls Digit) '' days'' = []" by code_simp
  show ?thesis unfolding takeWhile_replicate_append [of "in_cls Digit", OF a] b by simp
qed

lemma days_tail_match:
  "rx_match (Seq (Star Space) (Seq (Lit ''day'') (Opt (Lit ''s'')))) ('' days'', g) =
     [([], g), (''s'', g)]"
proof -
  have a: "takeWhile (in_cls Space) '' days'' = '' ''" by code_simp
  have b: "rev [0 ..< Suc (length '' '')] = [1, 0]" by code_simp
  have "rx_match (Star Space) ('' days'', g) = [(''days'', g), ('' days'', g)]"
    unfolding rx_match.simps a b by simp
  then show ?thesis by simp
qed

lemma ones_group_match:
  assumes "1 \<le> n"
  shows "\<exists>ms. rx_match (Group (Plus Digit)) (replicate n CHR ''1'' @ '' days'', None) =
              ('' days'', Some (replicate n CHR ''1'')) # ms"
proof -
  define s where "s = replicate n CHR ''1'' @ '' days''"
  define F :: "mstate \<Rightarrow> mstate"
    where "F = (\<lambda>(s', _). (s', Some (take (length s - length s') s)))"
  define G :: "nat \<Rightarrow> mstate" where "G = (\<lambda>k. (drop k s, None))"
  from assms have "[1 ..< Suc n] = [1 ..< n] @ [n]" by simp
  then have r: "rev [1 ..< Suc n] = n # rev [1 ..< n]" by simp
  have tw: "length (takeWhile (in_cls Digit) s) = n"
    unfolding s_def takeWhile_ones_days by simp
  have "rx_match (Plus Digit) (s, None) = map G (rev [1 ..< Suc n])"
    unfolding rx_match.simps tw G_def ..
  then have p: "rx_match (Plus Digit) (s, None) = G n # map G (rev [1 ..< n])"
    unfolding r by simp
  have "rx_match (Group (Plus Digit)) (s, None) = map F (rx_match (Plus Digit) (s, None))"
    unfolding rx_match.simps(7) F_def ..
  then have g: "rx_match (Group (Plus Digit)) (s, None) =
                  F (G n) # map F (map G (rev [1 ..< n]))"
    unfolding p by simp
  have h: "F (G n) = ('' days'', Some (replicate n CHR ''1''))"
    by (simp add: F_def G_def s_def)
  have "rx_match (Group (Plus Digit)) (s, None) =
          ('' days'', Some (replicate n CHR ''1'')) # map F (map G (rev [1 ..< n]))"
    unfolding g h ..
  then show ?thesis unfolding s_def by (rule exI)
qed

lemma ones_first_pattern:
  assumes "1 \<le> n"
  shows "\<exists>ms. rx_match (Seq (Group (Plus Digit))
                   (Seq (Star Space) (Seq (Lit ''day'') (Opt (Lit ''s'')))))
                (replicate n CHR ''1'' @ '' days'', None) =
              ([], Some (replicate n CHR ''1'')) # ms"
proof -
  define s where "s = replicate n CHR ''1'' @ '' days''"
  define B where "B = Seq (Star Space) (Seq (Lit ''day'') (Opt (Lit ''s'')))"
  from ones_group_match [OF assms] obtain ms
    where eq: "rx_match (Group (Plus Digit)) (s, None) =
             ('' days'', Some (replicate n CHR ''1'')) # ms" unfolding s_def by blast
  have t: "rx_match B ('' days'', Some (replicate n CHR ''1'')) =
             [([], Some (replicate n CHR ''1'')), (''s'', Some (replicate n CHR ''1''))]"
    unfolding B_def by (rule days_tail_match)
  have "rx_match (Seq (Group (Plus Digit)) B) (s, None) =
          concat (map (rx_match B) (rx_match (Group (Plus Digit)) (s, None)))"
    by (simp only: rx_match.simps)
  also have "\<dots> = rx_match B ('' days'', Some (replicate n CHR ''1'')) @
                    concat (map (rx_match B) ms)"
    by (simp only: eq list.map concat.simps)
  also have "\<dots> = ([], Some (replicate n CHR ''1'')) #
                    ((''s'', Some (replicate n CHR ''1'')) # concat (map (rx_match B) ms))"
    by (simp only: t append.simps)
  finally show ?thesis unfolding s_def B_def by (rule exI)
qed

lemma re_search_head: "rx_match r (s, None) = m # ms \<Longrightarrow> re_search r s = Some m"
  by (cases s) simp_all

lemma first_match_ones:
  assumes "1 \<le> n"
  shows "first_match days_patterns (lower (replicate n CHR ''1'' @ '' days'')) =
           Some (replicate n CHR ''1'')"
proof -
  from ones_first_pattern [OF assms] obtain ms
    where "rx_match (Seq (Group (Plus Digit))
                   (Seq (Star Space) (Seq (Lit ''day'') (Opt (Lit ''s'')))))
                (replicate n CHR ''1'' @ '' days'', None) =
              ([], Some (replicate n CHR ''1'')) # ms" by blast
  from re_search_head [OF this] show ?thesis
    unfolding lower_ones_days days_patterns_def by (simp add: group1_def)
qed

text \<open>
  C7, as stated, fails.  In the message made of 4301 ones followed by \<open>days\<close> the first
  pattern matches and captures the 4301 digits, but no day count reaches the meal agent:
  \<open>int\<close> raises \<open>ValueError\<close> on more than 4300 digits, the router's \<open>except\<close> clause
  catches it, and the route returns a failure without calling the agent.
\<close>

theorem long_count_counterexample:
  "first_match days_patterns (lower long_count_message) = Some (replicate 4301 CHR ''1'') \<and>
   route_to_agent demo_env ''meal_planning'' (demo_ctx long_count_message) =
     ([Routing ''meal_planning''], Inr (caught (int_limit_error 4301)))"
proof -
  have n: "(1::nat) \<le> 4301" by simp
  have f: "first_match days_patterns (lower long_count_message) =
             Some (replicate 4301 CHR ''1'')"
    unfolding long_count_message_def by (rule first_match_ones [OF n])
  have e: "extract_days long_count_message = Inl (int_limit_error 4301)"
    unfolding extract_days_cases f by (simp add: int_max_str_digits_def)
  have u: "ctx_user_id (demo_ctx long_count_message) = Some ''u1''"
    by (simp add: demo_ctx_def)
  have m: "get_message (demo_ctx long_count_message) = long_count_message"
    by (simp add: demo_ctx_def get_message_def)
  have "route_to_agent demo_env ''meal_planning'' (demo_ctx long_count_message) =
     ([Routing ''meal_planning''], Inr (caught (int_limit_error 4301)))"
    unfolding route_meal [OF u] m e by simp
  with f show ?thesis by (rule conjI)
qed

text \<open>
  C7, amended.  For every meal-planning route, the patterns \<open><N> days\<close>, \<open><N>-day\<close>,
  \<open>for <N> days\<close> are tried in this order on the lower-cased message and the first one
  that matches anywhere supplies \<open>N\<close>.  When \<open>N\<close> is positive and has at most 4300
  digits, the meal agent is called with day count \<open>N\<close>; when no pattern matches, it is
  called with 7 (whether or not the message contains \<open>week\<close>); when \<open>N\<close> has more than
  4300 digits no agent is called and the route returns a failure result.  The message
  \<open>Create a 5-day vegetarian meal plan\<close> gives 5.
\<close>

theorem meal_route_day_count:
  assumes "ctx_user_id ctx = Some uid"
  shows "(\<forall>d. first_match days_patterns (lower (get_message ctx)) = Some d \<and>
              length d \<le> int_max_str_digits \<and> 0 < int_of_digits d \<longrightarrow>
              fst (route_to_agent env ''meal_planning'' ctx) =
                [Routing ''meal_planning'',
                 GenerateMealPlan uid (int_of_digits d) (get_preferences ctx)]) \<and>
         (first_match days_patterns (lower (get_message ctx)) = None \<longrightarrow>
              fst (route_to_agent env ''meal_planning'' ctx) =
                [Routing ''meal_planning'', GenerateMealPlan uid 7 (get_preferences ctx)]) \<and>
         (\<forall>d. first_match days_patterns (lower (get_message ctx)) = Some d \<and>
              int_max_str_digits < length d \<longrightarrow>
              route_to_agent env ''meal_planning'' ctx =
                ([Routing ''meal_planning''],
                 Inr (RouteResult False None
                        (''Error processing request: '' @
                         error_str (int_limit_error (length d)))))) \<and>
         (\<forall>d. first_match days_patterns (lower (get_message ctx)) = Some d \<longleftrightarrow>
            (\<exists>i < length days_patterns.
               (\<forall>j < i. re_search (days_patterns ! j) (lower (get_message ctx)) = None) \<and>
               (\<exists>m. re_search (days_patterns ! i) (lower (get_message ctx)) = Some m \<and>
                    group1 m = d))) \<and>
         (get_message ctx = ''Create a 5-day vegetarian meal plan'' \<longrightarrow>
            fst (route_to_agent env ''meal_planning'' ctx) =
              [Routing ''meal_planning'', GenerateMealPlan uid 5 (get_preferences ctx)])"
proof (intro conjI allI impI)
  fix d
  assume "first_match days_patterns (lower (get_message ctx)) = Some d \<and>
          length d \<le> int_max_str_digits \<and> 0 < int_of_digits d"
  then have "extract_days (get_message ctx) = Inr (Some (int_of_digits d))"
    and "py_or (Some (int_of_digits d)) 7 = int_of_digits d"
    by (simp_all add: extract_days_cases py_or_def)
  with route_meal [OF assms, of env]
  show "fst (route_to_agent env ''meal_planning'' ctx) =
          [Routing ''meal_planning'',
           GenerateMealPlan uid (int_of_digits d) (get_preferences ctx)]"
    by simp
next
  assume "first_match days_patterns (lower (get_message ctx)) = None"
  then obtain x where "extract_days (get_message ctx) = Inr x" and "py_or x 7 = 7"
    by (simp add: extract_days_cases py_or_def)
  with route_meal [OF assms, of env]
  show "fst (route_to_agent env ''meal_planning'' ctx) =
          [Routing ''meal_planning'', GenerateMealPlan uid 7 (get_preferences ctx)]"
    by simp
next
  fix d
  assume "first_match days_patterns (lower (get_message ctx)) = Some d \<and>
          int_max_str_digits < length d"
  then have "extract_days (get_message ctx) = Inl (int_limit_error (length d))"
    by (simp add: extract_days_cases)
  with route_meal [OF assms, of env]
  show "route_to_agent env ''meal_planning'' ctx =
          ([Routing ''meal_planning''],
           Inr (RouteResult False None
                  (''Error processing request: '' @ error_str (int_limit_error (length d)))))"
    by (simp add: caught_def)
next
  fix d
  show "first_match days_patterns (lower (get_message ctx)) = Some d \<longleftrightarrow>
            (\<exists>i < length days_patterns.
               (\<forall>j < i. re_search (days_patterns ! j) (lower (get_message ctx)) = None) \<and>
               (\<exists>m. re_search (days_patterns ! i) (lower (get_message ctx)) = Some m \<and>
                    group1 m = d))"
    by (rule first_match_Some_iff)
next
  assume m: "get_message ctx = ''Create a 5-day vegetarian meal plan''"
  have "extract_days ''Create a 5-day vegetarian meal plan'' = Inr (Some 5)" by code_simp
  moreover have "py_or (Some 5) 7 = 5" by (simp add: py_or_def)
  ultimately show "fst (route_to_agent env ''meal_planning'' ctx) =
              [Routing ''meal_planning'', GenerateMealPlan uid 5 (get_preferences ctx)]"
    using route_meal [OF assms, of env] m by simp
qed

theorem meal_route_day_count_witness:
  "ctx_user_id (demo_ctx ''Create a 5-day vegetarian meal plan'') = Some ''u1'' \<and>
   first_match days_patterns (lower ''Create a 5-day vegetarian meal plan'') = Some ''5'' \<and>
   length ''5'' \<le> int_max_str_digits \<and> 0 < int_of_digits ''5'' \<and>
   fst (route_to_agent demo_env ''meal_planning''
          (demo_ctx ''Create a 5-day vegetarian meal plan'')) =
     [Routing ''meal_planning'', GenerateMealPlan ''u1'' 5 []]"
proof -
  let ?m = "''Create a 5-day vegetarian meal plan''"
  let ?c = "demo_ctx ?m"
  have u: "ctx_user_id ?c = Some ''u1''" by (simp add: demo_ctx_def)
  have m: "get_message ?c = ?m" by (simp add: demo_ctx_def get_message_def)
  have p: "get_preferences ?c = []" by (simp add: demo_ctx_def get_preferences_def)
  have f: "first_match days_patterns (lower ?m) = Some ''5''" by code_simp
  have l: "length ''5'' \<le> int_max_str_digits" by (simp add: int_max_str_digits_def)
  have v: "int_of_digits ''5'' = 5" by code_simp
  note meal_route_day_count [OF u, of demo_env, THEN conjunct1, rule_format, of "''5''"]
  with m f l v have "fst (route_to_agent demo_env ''meal_planning'' ?c) =
     [Routing ''meal_planning'', GenerateMealPlan ''u1'' (int_of_digits ''5'')
        (get_preferences ?c)]"
    by simp
  with u f l v p show ?thesis by simp
qed

text \<open>
  C4, as stated, fails.  A context that supplies a budget and dates of its own
  (\<open>budget = 500\<close>) still has the travel agent called with budget 2000 and the default
  dates: the router reads only \<open>user_id\<close>, \<open>preferences\<close> and \<open>message\<close> from the
  context.
\<close>

theorem travel_override_counterexample:
  "map_of (ctx_other override_ctx) ''budget'' = Some (JNum 500) \<and>
   fst (route_to_agent demo_env ''travel'' override_ctx) =
     [Routing ''travel'', PlanTrip ''u1'' ''Paris'' (130, 137) 2000 []]"
  by code_simp

text \<open>
  C4, amended.  For every travel route: when the ordered patterns \<open>to X\<close>, \<open>visit X\<close>,
  \<open>trip to X\<close>, \<open>in X\<close> (\<open>X\<close> one or two capitalised words) extract no destination,
  the route returns \<open>success = False\<close> asking for one and calls no agent; otherwise the
  travel agent is called exactly once, with a start date 30 days from today, an end date
  7 days later and budget 2000, whatever else the context holds (it has no overrides),
  and an exception of the agent becomes a failure result.
\<close>

theorem travel_route_defaults:
  assumes "ctx_user_id ctx = Some uid"
  shows "route_to_agent env ''travel'' ctx =
     (case extract_destination (get_message ctx) of
        None \<Rightarrow>
          ([Routing ''travel''],
           Inr (RouteResult False None ''Please specify a destination for your trip''))
      | Some destination \<Rightarrow>
          ([Routing ''travel'',
            PlanTrip uid destination (today env + 30, today env + 30 + 7) 2000
              (get_preferences ctx)],
           Inr (case plan_trip env uid destination (today env + 30, today env + 30 + 7) 2000
                       (get_preferences ctx) of
                  Inl e \<Rightarrow> caught e
                | Inr trip_plan \<Rightarrow>
                    RouteResult True (Some (TripPlanData trip_plan))
                      (''Created trip plan for '' @ destination)))) \<and>
     route_to_agent env ''travel'' (ctx\<lparr>ctx_other := other\<rparr>) = route_to_agent env ''travel'' ctx"
proof -
  have u: "ctx_user_id (ctx\<lparr>ctx_other := other\<rparr>) = Some uid" using assms by simp
  have m: "get_message (ctx\<lparr>ctx_other := other\<rparr>) = get_message ctx"
    by (simp add: get_message_def)
  have p: "get_preferences (ctx\<lparr>ctx_other := other\<rparr>) = get_preferences ctx"
    by (simp add: get_preferences_def)
  have "route_to_agent env ''travel'' (ctx\<lparr>ctx_other := other\<rparr>) =
        route_to_agent env ''travel'' ctx"
    unfolding route_travel [OF u] route_travel [OF assms] m p ..
  with route_travel [OF assms, of env] show ?thesis by blast
qed

theorem travel_route_defaults_witness:
  "ctx_user_id (demo_ctx ''Plan a trip to Tokyo for 5 days'') = Some ''u1'' \<and>
   extract_destination ''Plan a trip to Tokyo for 5 days'' = Some ''Tokyo'' \<and>
   route_to_agent demo_env ''travel'' (demo_ctx ''Plan a trip to Tokyo for 5 days'') =
     ([Routing ''travel'', PlanTrip ''u1'' ''Tokyo'' (130, 137) 2000 []],
      Inr (RouteResult True (Some (TripPlanData ''Tokyo'')) ''Created trip plan for Tokyo''))"
proof -
  let ?c = "demo_ctx ''Plan a trip to Tokyo for 5 days''"
  have u: "ctx_user_id ?c = Some ''u1''" by (simp add: demo_ctx_def)
  have m: "get_message ?c = ''Plan a trip to Tokyo for 5 days''"
    by (simp add: demo_ctx_def get_message_def)
  have p: "get_preferences ?c = []" by (simp add: demo_ctx_def get_preferences_def)
  have d: "extract_destination ''Plan a trip to Tokyo for 5 days'' = Some ''Tokyo''"
    by code_simp
  from travel_route_defaults [OF u, of demo_env] m p d u show ?thesis
    by (simp add: demo_env_def)
qed

section \<open>Multi-domain routes and agent failures\<close>

lemma sub_intents_subset:
  "set (sub_intents msg) \<subseteq> {''meal_planning'', ''shopping'', ''travel''}"
  by (auto simp: sub_intents_def)

text \<open>
  C5.  For every multi-domain route (of a context that has its \<open>user_id\<close>), one
  sub-route is invoked for each domain whose narrower word test matches the lower-cased
  raw message (\<open>meal\<close> for meal planning, \<open>shop\<close> for shopping, \<open>travel\<close> or \<open>trip\<close> for
  travel) and none for the others; the sub-routes run, and their results are collected,
  in the order meal, shopping, travel; each sub-route returns a result of its own (it
  does not raise), so that its failure is inside its result item; and the aggregate
  result has \<open>success = True\<close>.
\<close>

theorem multi_domain_route:
  assumes "ctx_user_id ctx = Some uid"
  shows "route_to_agent env ''multi_domain'' ctx =
           (Routing ''multi_domain'' #
              concat (map (\<lambda>i. fst (route_to_agent env i ctx)) (sub_intents (get_message ctx))),
            Inr (RouteResult True
                   (Some (ResultsData
                      (map (\<lambda>i. projr (snd (route_to_agent env i ctx)))
                         (sub_intents (get_message ctx)))))
                   ''Completed multi-domain request'')) \<and>
         (\<forall>i \<in> set (sub_intents (get_message ctx)).
            (\<exists>r. snd (route_to_agent env i ctx) = Inr r) \<and>
            filter is_routing (fst (route_to_agent env i ctx)) = [Routing i]) \<and>
         sub_intents (get_message ctx) =
           filter (\<lambda>i. (i = ''meal_planning'' \<and> py_in ''meal'' (lower (get_message ctx))) \<or>
                        (i = ''shopping'' \<and> py_in ''shop'' (lower (get_message ctx))) \<or>
                        (i = ''travel'' \<and> (py_in ''travel'' (lower (get_message ctx)) \<or>
                                            py_in ''trip'' (lower (get_message ctx)))))
             [''meal_planning'', ''shopping'', ''travel'']"
proof -
  have single: "(\<exists>r. snd (route_to_agent env i ctx) = Inr r) \<and>
                filter is_routing (fst (route_to_agent env i ctx)) = [Routing i]"
    if "i \<in> set (sub_intents (get_message ctx))" for i
  proof -
    from that sub_intents_subset have "i \<noteq> ''multi_domain''" by fastforce
    from route_single_returns [OF assms this, of env] show ?thesis by auto
  qed
  have "sub_intents (get_message ctx) =
           filter (\<lambda>i. (i = ''meal_planning'' \<and> py_in ''meal'' (lower (get_message ctx))) \<or>
                        (i = ''shopping'' \<and> py_in ''shop'' (lower (get_message ctx))) \<or>
                        (i = ''travel'' \<and> (py_in ''travel'' (lower (get_message ctx)) \<or>
                                            py_in ''trip'' (lower (get_message ctx)))))
             [''meal_planning'', ''shopping'', ''travel'']"
    by (simp add: sub_intents_def)
  with route_multi [OF assms, of env] single show ?thesis by blast
qed

theorem multi_domain_route_witness:
  "ctx_user_id (demo_ctx ''plan meals and shop for my trip to Paris'') = Some ''u1'' \<and>
   sub_intents ''plan meals and shop for my trip to Paris'' =
     [''meal_planning'', ''shopping'', ''travel''] \<and>
   route_to_agent failing_env ''multi_domain''
       (demo_ctx ''plan meals and shop for my trip to Paris'') =
     ([Routing ''multi_domain'', Routing ''meal_planning'', GenerateMealPlan ''u1'' 7 [],
       Routing ''shopping'', Routing ''travel'',
       PlanTrip ''u1'' ''Paris'' (130, 137) 2000 []],
      Inr (RouteResult True
             (Some (ResultsData
                [RouteResult False None ''Error processing request: recipe service down'',
                 RouteResult False None
                   ''Please generate a meal plan first before creating a shopping list'',
                 RouteResult False None ''Error processing request: no accommodations'']))
             ''Completed multi-domain request''))"
proof -
  let ?m = "''plan meals and shop for my trip to Paris''"
  let ?c = "demo_ctx ?m"
  have u: "ctx_user_id ?c = Some ''u1''" by (simp add: demo_ctx_def)
  have m: "get_message ?c = ?m" by (simp add: demo_ctx_def get_message_def)
  have s: "sub_intents ?m = [''meal_planning'', ''shopping'', ''travel'']" by code_simp
  have a: "route_to_agent failing_env ''meal_planning'' ?c =
             ([Routing ''meal_planning'', GenerateMealPlan ''u1'' 7 []],
              Inr (RouteResult False None ''Error processing request: recipe service down''))"
    by code_simp
  have b: "route_to_agent failing_env ''shopping'' ?c =
             ([Routing ''shopping''],
              Inr (RouteResult False None
                ''Please generate a meal plan first before creating a shopping list''))"
    by code_simp
  have c: "route_to_agent failing_env ''travel'' ?c =
             ([Routing ''travel'', PlanTrip ''u1'' ''Paris'' (130, 137) 2000 []],
              Inr (RouteResult False None ''Error processing request: no accommodations''))"
    by code_simp
  from multi_domain_route [OF u, of failing_env, THEN conjunct1] u s
  show ?thesis by (simp add: m s a b c)
qed

lemma single_route_catches:
  assumes "intent \<noteq> ''multi_domain''"
  shows "(GenerateMealPlan u d p \<in> set (fst (route_to_agent env intent ctx)) \<longrightarrow>
            generate_meal_plan env u d p = Inl e \<longrightarrow>
            snd (route_to_agent env intent ctx) = Inr (caught e)) \<and>
         (PlanTrip u dest dates b p \<in> set (fst (route_to_agent env intent ctx)) \<longrightarrow>
            plan_trip env u dest dates b p = Inl e \<longrightarrow>
            snd (route_to_agent env intent ctx) = Inr (caught e))"
proof (cases "ctx_user_id ctx")
  case None
  then show ?thesis by (simp add: route_no_user)
next
  case (Some uid)
  consider "intent = ''meal_planning''" | "intent = ''shopping''" | "intent = ''travel''"
    | "intent \<notin> {''meal_planning'', ''shopping'', ''travel'', ''multi_domain''}"
    using assms by blast
  then show ?thesis
  proof cases
    case 1
    then show ?thesis using route_meal [OF Some, of env] by (auto split: sum.splits)
  next
    case 2
    then show ?thesis using route_shopping [OF Some, of env] by simp
  next
    case 3
    then show ?thesis using route_travel [OF Some, of env]
      by (auto split: option.splits)
  next
    case 4
    then show ?thesis using route_unknown [OF Some, of intent env] by simp
  qed
qed

lemma route_returns:
  "snd (route_to_agent env intent ctx) = Inl e \<Longrightarrow>
   ctx_user_id ctx = None \<and> e = KeyError ''user_id''"
proof (cases "ctx_user_id ctx")
  case None
  assume "snd (route_to_agent env intent ctx) = Inl e"
  with None show ?thesis by (simp add: route_no_user)
next
  case (Some uid)
  assume l: "snd (route_to_agent env intent ctx) = Inl e"
  show ?thesis
  proof (cases "intent = ''multi_domain''")
    case True
    with l route_multi [OF Some, of env] show ?thesis by simp
  next
    case False
    from route_single_returns [OF Some False, of env] l show ?thesis by auto
  qed
qed

lemma multi_route_catches:
  assumes u: "ctx_user_id ctx = Some uid"
    and ev: "ev \<in> set (fst (route_to_agent env ''multi_domain'' ctx))"
    and nr: "\<not> is_routing ev"
  shows "\<exists>i \<in> set (sub_intents (get_message ctx)).
           i \<noteq> ''multi_domain'' \<and> ev \<in> set (fst (route_to_agent env i ctx)) \<and>
           (\<exists>rs. snd (route_to_agent env ''multi_domain'' ctx) =
                   Inr (RouteResult True (Some (ResultsData rs))
                          ''Completed multi-domain request'') \<and>
                 projr (snd (route_to_agent env i ctx)) \<in> set rs)"
proof -
  note eq = route_multi [OF u, of env]
  from ev nr eq obtain i where i: "i \<in> set (sub_intents (get_message ctx))"
    and evi: "ev \<in> set (fst (route_to_agent env i ctx))"
    by (cases ev) auto
  from i sub_intents_subset have "i \<noteq> ''multi_domain''" by fastforce
  moreover from i eq have "\<exists>rs. snd (route_to_agent env ''multi_domain'' ctx) =
                   Inr (RouteResult True (Some (ResultsData rs))
                          ''Completed multi-domain request'') \<and>
                 projr (snd (route_to_agent env i ctx)) \<in> set rs"
    by simp
  ultimately show ?thesis using i evi by blast
qed

text \<open>
  C6, as stated, fails.  For the multi-domain message \<open>meal plan and shopping list\<close>
  the meal agent is called and raises, and \<open>route_to_agent\<close> returns a result with
  \<open>success = True\<close>: the failure is inside the item of the meal sub-route.
\<close>

theorem multi_domain_success_counterexample:
  "parse_intent ''meal plan and shopping list'' = ''multi_domain'' \<and>
   GenerateMealPlan ''u1'' 7 [] \<in>
     set (fst (route_to_agent failing_env ''multi_domain''
                 (demo_ctx ''meal plan and shopping list''))) \<and>
   generate_meal_plan failing_env ''u1'' 7 [] = Inl (AgentError ''recipe service down'') \<and>
   snd (route_to_agent failing_env ''multi_domain''
          (demo_ctx ''meal plan and shopping list'')) =
     Inr (RouteResult True
            (Some (ResultsData
               [RouteResult False None ''Error processing request: recipe service down'',
                RouteResult False None
                  ''Please generate a meal plan first before creating a shopping list'']))
            ''Completed multi-domain request'')"
  by code_simp

text \<open>
  C6, amended.  For every intent and context, no exception (instance of \<open>Exception\<close>)
  of a domain agent leaves \<open>route_to_agent\<close>: the only exception it can raise is the
  \<open>KeyError\<close> of a context without \<open>user_id\<close>, raised before any agent is called.
  When the agent that a single-domain route calls raises \<open>e\<close>, the route returns
  \<open>success = False\<close> with the message \<open>Error processing request: \<close> followed by
  \<open>str(e)\<close>; in a multi-domain route that failure result is the item of the sub-route
  that called the agent, and the aggregate result has \<open>success = True\<close>.
\<close>

theorem route_catches_agent_errors:
  "(\<forall>e. snd (route_to_agent env intent ctx) = Inl e \<longrightarrow>
         ctx_user_id ctx = None \<and> e = KeyError ''user_id'') \<and>
   (intent \<noteq> ''multi_domain'' \<longrightarrow>
      (\<forall>u d p e. GenerateMealPlan u d p \<in> set (fst (route_to_agent env intent ctx)) \<and>
                 generate_meal_plan env u d p = Inl e \<longrightarrow>
                 snd (route_to_agent env intent ctx) =
                   Inr (RouteResult False None
                          (''Error processing request: '' @ error_str e))) \<and>
      (\<forall>u dest dates b p e.
                 PlanTrip u dest dates b p \<in> set (fst (route_to_agent env intent ctx)) \<and>
                 plan_trip env u dest dates b p = Inl e \<longrightarrow>
                 snd (route_to_agent env intent ctx) =
                   Inr (RouteResult False None
                          (''Error processing request: '' @ error_str e)))) \<and>
   (intent = ''multi_domain'' \<longrightarrow>
      (\<forall>u d p e. GenerateMealPlan u d p \<in> set (fst (route_to_agent env intent ctx)) \<and>
                 generate_meal_plan env u d p = Inl e \<longrightarrow>
                 (\<exists>rs. snd (route_to_agent env intent ctx) =
                         Inr (RouteResult True (Some (ResultsData rs))
                                ''Completed multi-domain request'') \<and>
                       RouteResult False None
                         (''Error processing request: '' @ error_str e) \<in> set rs)) \<and>
      (\<forall>u dest dates b p e.
                 PlanTrip u dest dates b p \<in> set (fst (route_to_agent env intent ctx)) \<and>
                 plan_trip env u dest dates b p = Inl e \<longrightarrow>
                 (\<exists>rs. snd (route_to_agent env intent ctx) =
                         Inr (RouteResult True (Some (ResultsData rs))
                                ''Completed multi-domain request'') \<and>
                       RouteResult False None
                         (''Error processing request: '' @ error_str e) \<in> set rs)))"
proof (intro conjI impI allI)
  fix e assume "snd (route_to_agent env intent ctx) = Inl e"
  then show "ctx_user_id ctx = None" and "e = KeyError ''user_id''"
    using route_returns by blast+
next
  fix u d p e
  assume "intent \<noteq> ''multi_domain''"
    and "GenerateMealPlan u d p \<in> set (fst (route_to_agent env intent ctx)) \<and>
         generate_meal_plan env u d p = Inl e"
  then show "snd (route_to_agent env intent ctx) =
               Inr (RouteResult False None (''Error processing request: '' @ error_str e))"
    using single_route_catches [of intent u d p env ctx e] by (simp add: caught_def)
next
  fix u dest dates b p e
  assume "intent \<noteq> ''multi_domain''"
    and "PlanTrip u dest dates b p \<in> set (fst (route_to_agent env intent ctx)) \<and>
         plan_trip env u dest dates b p = Inl e"
  then show "snd (route_to_agent env intent ctx) =
               Inr (RouteResult False None (''Error processing request: '' @ error_str e))"
    using single_route_catches [of intent u d p env ctx e dest dates b]
    by (simp add: caught_def)
next
  fix u d p e
  assume md: "intent = ''multi_domain''"
    and h: "GenerateMealPlan u d p \<in> set (fst (route_to_agent env intent ctx)) \<and>
            generate_meal_plan env u d p = Inl e"
  have "ctx_user_id ctx \<noteq> None"
  proof
    assume "ctx_user_id ctx = None"
    from route_no_user [OF this, of env intent] h show False by simp
  qed
  then obtain uid where uid: "ctx_user_id ctx = Some uid" by blast
  from multi_route_catches [OF uid, of "GenerateMealPlan u d p" env] h md
  obtain i rs where i: "i \<noteq> ''multi_domain''"
    and evi: "GenerateMealPlan u d p \<in> set (fst (route_to_agent env i ctx))"
    and rs: "snd (route_to_agent env ''multi_domain'' ctx) =
               Inr (RouteResult True (Some (ResultsData rs)) ''Completed multi-domain request'')"
    and mem: "projr (snd (route_to_agent env i ctx)) \<in> set rs"
    by auto
  from single_route_catches [OF i, of u d p env ctx e] evi h
  have "snd (route_to_agent env i ctx) = Inr (caught e)" by blast
  with mem have "caught e \<in> set rs" by simp
  with rs md show "\<exists>rs. snd (route_to_agent env intent ctx) =
                         Inr (RouteResult True (Some (ResultsData rs))
                                ''Completed multi-domain request'') \<and>
                       RouteResult False None
                         (''Error processing request: '' @ error_str e) \<in> set rs"
    by (auto simp: caught_def)
next
  fix u dest dates b p e
  assume md: "intent = ''multi_domain''"
    and h: "PlanTrip u dest dates b p \<in> set (fst (route_to_agent env intent ctx)) \<and>
            plan_trip env u dest dates b p = Inl e"
  have "ctx_user_id ctx \<noteq> None"
  proof
    assume "ctx_user_id ctx = None"
    from route_no_user [OF this, of env intent] h show False by simp
  qed
  then obtain uid where uid: "ctx_user_id ctx = Some uid" by blast
  from multi_route_catches [OF uid, of "PlanTrip u dest dates b p" env] h md
  obtain i rs where i: "i \<noteq> ''multi_domain''"
    and evi: "PlanTrip u dest dates b p \<in> set (fst (route_to_agent env i ctx))"
    and rs: "snd (route_to_agent env ''multi_domain'' ctx) =
               Inr (RouteResult True (Some (ResultsData rs)) ''Completed multi-domain request'')"
    and mem: "projr (snd (route_to_agent env i ctx)) \<in> set rs"
    by auto
  from single_route_catches [OF i, of u d p env ctx e dest dates b] evi h
  have "snd (route_to_agent env i ctx) = Inr (caught e)" by blast
  with mem have "caught e \<in> set rs" by simp
  with rs md show "\<exists>rs. snd (route_to_agent env intent ctx) =
                         Inr (RouteResult True (Some (ResultsData rs))
                                ''Completed multi-domain request'') \<and>
                       RouteResult False None
                         (''Error processing request: '' @ error_str e) \<in> set rs"
    by (auto simp: caught_def)
qed

theorem route_catches_agent_errors_witness:
  "GenerateMealPlan ''u1'' 7 [] \<in>
     set (fst (route_to_agent failing_env ''meal_planning'' (demo_ctx ''cook something''))) \<and>
   generate_meal_plan failing_env ''u1'' 7 [] = Inl (AgentError ''recipe service down'') \<and>
   snd (route_to_agent failing_env ''meal_planning'' (demo_ctx ''cook something'')) =
     Inr (RouteResult False None ''Error processing request: recipe service down'')"
proof -
  let ?c = "demo_ctx ''cook something''"
  have a: "GenerateMealPlan ''u1'' 7 [] \<in>
     set (fst (route_to_agent failing_env ''meal_planning'' ?c))" by code_simp
  have b: "generate_meal_plan failing_env ''u1'' 7 [] = Inl (AgentError ''recipe service down'')"
    by (simp add: failing_env_def)
  have n: "''meal_planning'' \<noteq> ''multi_domain''" by simp
  from route_catches_agent_errors [of failing_env "''meal_planning''" ?c,
      THEN conjunct2, THEN conjunct1, rule_format, OF n, THEN conjunct1, rule_format,
      of "''u1''" 7 "[]" "AgentError ''recipe service down''"] a b
  show ?thesis by simp
qed

section \<open>The ambiguous path of the orchestrator\<close>

lemma process_message_ambiguous:
  assumes "parse_intent msg = ''ambiguous''"
  shows "process_message env st uid msg sid =
           (if session_absent sid then snd (create_session env st uid) else st,
            [],
            Inr [(''response'', VStr (generate_clarifying_questions msg)),
                 (''intent'', VStr ''ambiguous''),
                 (''requires_clarification'', VBool True)])"
  using assms
  by (cases sid)
     (simp_all add: process_message_def Let_def session_absent_def split_beta)

lemma create_session_store:
  "snd (create_session env st uid) = st(uuid4 env \<mapsto> new_session env uid)"
  by (simp add: create_session_def new_session_def Let_def split: option.splits)

text \<open>
  C2 fails on the ambiguous path.  For \<open>process_message("u1", "hello there")\<close> the
  intent is \<open>ambiguous\<close> and the returned dictionary has the keys \<open>response\<close>,
  \<open>intent\<close> and \<open>requires_clarification\<close>: it has no \<open>session_id\<close> and no \<open>data\<close>,
  although the other return of the function carries both.
\<close>

theorem ambiguous_reply_lacks_fields:
  "parse_intent ''hello there'' = ''ambiguous'' \<and>
   snd (snd (process_message demo_env Map.empty ''u1'' ''hello there'' None)) =
     Inr [(''response'', VStr (generate_clarifying_questions ''hello there'')),
          (''intent'', VStr ''ambiguous''),
          (''requires_clarification'', VBool True)] \<and>
   map_of (projr (snd (snd (process_message demo_env Map.empty ''u1'' ''hello there'' None))))
     ''session_id'' = None \<and>
   map_of (projr (snd (snd (process_message demo_env Map.empty ''u1'' ''hello there'' None))))
     ''data'' = None"
proof -
  have a: "parse_intent ''hello there'' = ''ambiguous''" by code_simp
  show ?thesis
    unfolding process_message_ambiguous [OF a] using a by simp
qed

text \<open>
  C3, as stated, fails.  With no \<open>session_id\<close> given, \<open>process_message\<close> creates and
  stores a session before it classifies the message, so that an ambiguous message leaves
  a session store that differs from the one it found.
\<close>

theorem ambiguous_creates_session_counterexample:
  "parse_intent ''hello there'' = ''ambiguous'' \<and>
   fst (process_message demo_env Map.empty ''u1'' ''hello there'' None) \<noteq> Map.empty"
proof -
  have a: "parse_intent ''hello there'' = ''ambiguous''" by code_simp
  have "fst (process_message demo_env Map.empty ''u1'' ''hello there'' None) (uuid4 demo_env)
          \<noteq> None"
    unfolding process_message_ambiguous [OF a]
    by (simp add: session_absent_def create_session_store)
  then have "fst (process_message demo_env Map.empty ''u1'' ''hello there'' None) \<noteq> Map.empty"
    by auto
  with a show ?thesis by simp
qed

text \<open>
  C3, amended.  For every message whose intent is \<open>ambiguous\<close>, \<open>process_message\<close>
  returns the one fixed clarification text without routing or calling any agent, and
  appends nothing to any session: when a \<open>session_id\<close> is given the session store is
  left as it was; when none is given the only change is the new session, with an empty
  message list, that was stored under the fresh identifier before classification.
\<close>

theorem ambiguous_short_circuit:
  assumes "parse_intent msg = ''ambiguous''"
  shows "snd (snd (process_message env st uid msg sid)) =
           Inr [(''response'', VStr (generate_clarifying_questions [])),
                (''intent'', VStr ''ambiguous''),
                (''requires_clarification'', VBool True)] \<and>
         fst (snd (process_message env st uid msg sid)) = [] \<and>
         (\<not> session_absent sid \<longrightarrow> fst (process_message env st uid msg sid) = st) \<and>
         (session_absent sid \<longrightarrow>
            fst (process_message env st uid msg sid) = st(uuid4 env \<mapsto> new_session env uid) \<and>
            messages (new_session env uid) = []) \<and>
         (\<forall>k. k \<noteq> uuid4 env \<longrightarrow> fst (process_message env st uid msg sid) k = st k)"
  unfolding process_message_ambiguous [OF assms]
  by (simp add: create_session_store generate_clarifying_questions_def new_session_def)

theorem ambiguous_short_circuit_witness:
  "parse_intent ''hello there'' = ''ambiguous'' \<and>
   \<not> session_absent (Some ''session-7'') \<and>
   fst (process_message demo_env Map.empty ''u1'' ''hello there'' (Some ''session-7'')) =
     Map.empty \<and>
   fst (snd (process_message demo_env Map.empty ''u1'' ''hello there'' (Some ''session-7''))) =
     []"
proof -
  have a: "parse_intent ''hello there'' = ''ambiguous''" by code_simp
  have b: "\<not> session_absent (Some ''session-7'')" by (simp add: session_absent_def)
  from ambiguous_short_circuit [OF a, of demo_env Map.empty "''u1''" "Some ''session-7''"] a b
  show ?thesis by simp
qed

lemma routed_reply_fields:
  assumes "parse_intent msg \<noteq> ''ambiguous''"
    and "snd (snd (process_message env st uid msg sid)) = Inr reply"
  shows "map fst reply = [''response'', ''intent'', ''data'', ''session_id'']"
  using assms
  by (auto simp: process_message_def Let_def split_beta split: sum.splits option.splits if_splits)

section \<open>Saving task states\<close>


section \<open>Index files, owners and status updates\<close>

text \<open>
  C8 fails on the code.  The state file of task \<open>user_alice_index\<close> is the index file
  of user \<open>alice\<close>.  Saving a state of \<open>alice\<close> under that task identifier into an
  empty store succeeds, writes the state and then overwrites the same file with the
  index: what is stored for the task is the index document and not the stamped state,
  and \<open>list_paused_tasks\<close> for \<open>alice\<close> lists two entries with that \<open>task_id\<close>.
\<close>

theorem save_state_overwrites_record:
  "map_of collision_state ''user_id'' = Some (JStr ''alice'') \<and>
   get_state_file ''user_alice_index'' = get_user_index_file demo_fmt (JStr ''alice'') \<and>
   \<not> isl (save_state demo_fmt ''T1'' Map.empty ''user_alice_index'' collision_state) \<and>
   load_state collision_store ''user_alice_index'' \<noteq>
     Some (stamped ''user_alice_index'' ''T1'' collision_state) \<and>
   load_state collision_store ''user_alice_index'' =
     Some (load_user_index demo_fmt collision_store (JStr ''alice'')) \<and>
   length (entries_with_task_id ''user_alice_index''
             (list_paused_tasks demo_fmt collision_store (JStr ''alice''))) = 2"
  by code_simp

text \<open>
  C9 fails on the code.  Saving task \<open>t1\<close> for \<open>alice\<close> and then saving \<open>t1\<close> again
  for \<open>bob\<close> leaves one stored record, owned by \<open>bob\<close>, while the index of \<open>alice\<close>
  still lists \<open>t1\<close> (with the first save's stamp): \<open>save_state\<close> updates the index of
  the new owner only and never looks at the record it overwrites.
\<close>

theorem index_diverges_after_owner_change:
  "\<not> isl (save_state demo_fmt ''T1'' Map.empty ''t1'' [(''user_id'', JStr ''alice'')]) \<and>
   \<not> isl (save_state demo_fmt ''T2''
            (projr (save_state demo_fmt ''T1'' Map.empty ''t1'' [(''user_id'', JStr ''alice'')]))
            ''t1'' [(''user_id'', JStr ''bob'')]) \<and>
   load_state owner_change_store ''t1'' =
     Some [(''user_id'', JStr ''bob''), (''task_id'', JStr ''t1''), (''saved_at'', JStr ''T2'')] \<and>
   map fst (load_user_index demo_fmt owner_change_store (JStr ''bob'')) = [''t1''] \<and>
   map fst (load_user_index demo_fmt owner_change_store (JStr ''alice'')) = [''t1''] \<and>
   list_paused_tasks demo_fmt owner_change_store (JStr ''alice'') =
     [JObj [(''task_id'', JStr ''t1''), (''agent_type'', JStr ''unknown''),
            (''status'', JStr ''paused''), (''saved_at'', JStr ''T1'')]]"
  by code_simp






end
